theory Spec2Isabelle
  imports Main "HOL-Library.Word" "HOL-Library.Sublist"
begin

unbundle bit_operations_syntax

section \<open>Data model\<close>

text \<open>
  A \<open>Uint8Array\<close> is a list of 8-bit words when only its content matters. A JavaScript
  exception is the left summand of a result: \<open>BadKeyError\<close> and \<open>KeyMismatchError\<close> are
  the two error classes that \<open>Ed25519PrivateKey.ts\<close> names, \<open>Error msg\<close> is a plain
  \<open>new Error(msg)\<close>.
\<close>

type_synonym byte = "8 word"
type_synonym bytes = "byte list"

datatype error = BadKeyError | KeyMismatchError | Error string

text \<open>The public-key object of the collaborator class; only its bytes are kept.\<close>

datatype Ed25519PublicKey = Ed25519PublicKey bytes

text \<open>\<open>RawKeyPair\<close>: the argument of the private constructor, \<open>{ privateKey, publicKey }\<close>.\<close>

record RawKeyPair =
  privateKey :: bytes
  rawPublicKey :: bytes

text \<open>What \<open>nacl.sign.keyPair.*\<close> returns: \<open>{ secretKey, publicKey }\<close>.\<close>

record KeyPair =
  secretKey :: bytes
  naclPublicKey :: bytes

text \<open>
  The fields of class \<open>Ed25519PrivateKey\<close>. The two optional fields \<open>_asStringRaw\<close> and
  \<open>_chainCode\<close> are \<open>undefined\<close> until assigned, which is \<open>None\<close> here.
\<close>

record Ed25519PrivateKey =
  publicKey :: Ed25519PublicKey
  keyData :: bytes
  asStringRaw :: "string option"
  chainCode :: "bytes option"

text \<open>The mnemonic collaborator: a list of words.\<close>

datatype Mnemonic = Mnemonic "string list"

section \<open>Collaborators\<close>

text \<open>
  The primitives that \<open>Ed25519PrivateKey.ts\<close> imports and that are not part of the
  excerpt are parameters of the model, collected in one record:
  \<^item> \<open>edPublicKey\<close>: the Ed25519 public key of a seed (tweetnacl's \<open>crypto_sign_keypair\<close>);
  \<^item> \<open>publicKeyFromBytes\<close>: \<open>Ed25519PublicKey.fromBytes\<close>;
  \<^item> \<open>decodeHexOther\<close>: what \<open>decodeHex\<close> does on a string that is not an even number of
    hexadecimal digits (it may throw);
  \<^item> \<open>ed25519PrivKeyPrefix\<close>: the algorithm-identifier prefix constant;
  \<^item> \<open>pbkdf2\<close>, \<open>hmacSha512\<close>, \<open>randomBytes\<close>: the platform primitives;
  \<^item> \<open>createKeystore\<close>, \<open>loadKeystore\<close>: the keystore codec of \<open>Keystore.ts\<close>.
\<close>

record env =
  edPublicKey :: "bytes \<Rightarrow> bytes"
  publicKeyFromBytes :: "bytes \<Rightarrow> error + Ed25519PublicKey"
  decodeHexOther :: "string \<Rightarrow> error + bytes"
  ed25519PrivKeyPrefix :: string
  pbkdf2 :: "string \<Rightarrow> string \<Rightarrow> nat \<Rightarrow> nat \<Rightarrow> string \<Rightarrow> bytes"
  hmacSha512 :: "bytes \<Rightarrow> bytes \<Rightarrow> bytes"
  randomBytes :: "nat \<Rightarrow> error + bytes"
  createKeystore :: "bytes \<Rightarrow> string \<Rightarrow> bytes"
  loadKeystore :: "bytes \<Rightarrow> string \<Rightarrow> error + RawKeyPair"

text \<open>Sequencing of fallible steps: an exception thrown by the first step propagates.\<close>

definition andThen :: "error + 'a \<Rightarrow> ('a \<Rightarrow> error + 'b) \<Rightarrow> error + 'b" where
  "andThen r f = (case r of Inl e \<Rightarrow> Inl e | Inr x \<Rightarrow> f x)"

definition ok :: "error + 'a \<Rightarrow> bool" where
  "ok r = (case r of Inl e \<Rightarrow> False | Inr x \<Rightarrow> True)"

text \<open>The bytes of an ASCII string, as Node takes a string key or message.\<close>

definition ascii :: "string \<Rightarrow> bytes" where
  "ascii s = map of_char s"

subsection \<open>Hexadecimal codec\<close>

definition hexDigit :: "nat \<Rightarrow> char" where
  "hexDigit n = (if n < 10 then char_of (48 + n) else char_of (87 + n))"

text \<open>
  Modelled from the spec: \<open>encodeHex\<close> of \<open>util.ts\<close>, which is not in the excerpt. The
  spec has it produce the lowercase hexadecimal of the bytes, two digits a byte.
\<close>

definition encodeHex :: "bytes \<Rightarrow> string" where
  "encodeHex bs = concat (map (\<lambda>b. [hexDigit (unat b div 16), hexDigit (unat b mod 16)]) bs)"

text \<open>Hexadecimal digits by character code: \<open>0-9\<close> is 48-57, \<open>a-f\<close> 97-102, \<open>A-F\<close> 65-70.\<close>

definition is_lower_hex_char :: "char \<Rightarrow> bool" where
  "is_lower_hex_char c =
     (let n = (of_char c :: nat) in (48 \<le> n \<and> n \<le> 57) \<or> (97 \<le> n \<and> n \<le> 102))"

definition is_hex_char :: "char \<Rightarrow> bool" where
  "is_hex_char c =
     (let n = (of_char c :: nat) in
      (48 \<le> n \<and> n \<le> 57) \<or> (97 \<le> n \<and> n \<le> 102) \<or> (65 \<le> n \<and> n \<le> 70))"

definition is_hex :: "string \<Rightarrow> bool" where
  "is_hex s = list_all is_hex_char s"

definition is_lower_hex :: "string \<Rightarrow> bool" where
  "is_lower_hex s = list_all is_lower_hex_char s"

definition digitVal :: "char \<Rightarrow> nat" where
  "digitVal c =
     (let n = (of_char c :: nat) in
      if 48 \<le> n \<and> n \<le> 57 then n - 48
      else if 97 \<le> n \<and> n \<le> 102 then n - 87
      else if 65 \<le> n \<and> n \<le> 70 then n - 55
      else 0)"

fun hexBytes :: "string \<Rightarrow> bytes" where
  "hexBytes (a # b # rest) = of_nat (16 * digitVal a + digitVal b) # hexBytes rest"
| "hexBytes _ = []"

text \<open>
  Modelled from the spec: \<open>decodeHex\<close> of \<open>util.ts\<close>, which is not in the excerpt. On an
  even number of hexadecimal digits (either case) it is the inverse of the encoding; the
  spec says nothing about any other string, so there the result is left to the parameter
  \<open>decodeHexOther\<close>.
\<close>

definition decodeHex :: "env \<Rightarrow> string \<Rightarrow> error + bytes" where
  "decodeHex E s =
     (if is_hex s \<and> even (length s) then Inr (hexBytes s) else decodeHexOther E s)"

subsection \<open>tweetnacl key pairs\<close>

text \<open>
  \<open>nacl.sign.secretKeyLength\<close> is 64. \<open>nacl.sign.keyPair.fromSeed\<close> refuses a seed that
  is not 32 bytes long and otherwise returns a fresh 64-byte secret key, the seed followed
  by the public key, with the public key; \<open>nacl.sign.keyPair.fromSecretKey\<close> refuses a key
  that is not 64 bytes long and otherwise returns a copy of it with its last 32 bytes as
  the public key.
\<close>

definition secretKeyLength :: nat where
  "secretKeyLength = 64"

definition nacl_fromSeed :: "env \<Rightarrow> bytes \<Rightarrow> error + KeyPair" where
  "nacl_fromSeed E seed =
     (if length seed \<noteq> 32 then Inl (Error ''bad seed size'')
      else Inr \<lparr>secretKey = seed @ edPublicKey E seed, naclPublicKey = edPublicKey E seed\<rparr>)"

definition nacl_fromSecretKey :: "bytes \<Rightarrow> error + KeyPair" where
  "nacl_fromSecretKey sk =
     (if length sk \<noteq> 64 then Inl (Error ''bad secret key size'')
      else Inr \<lparr>secretKey = sk, naclPublicKey = drop 32 sk\<rparr>)"

section \<open>The private key class\<close>

text \<open>The private constructor.\<close>

definition newKey :: "env \<Rightarrow> RawKeyPair \<Rightarrow> error + Ed25519PrivateKey" where
  "newKey E rp =
     (if length (privateKey rp) \<noteq> secretKeyLength then Inl BadKeyError
      else andThen (publicKeyFromBytes E (rawPublicKey rp))
             (\<lambda>pk. Inr \<lparr>publicKey = pk, keyData = privateKey rp,
                        asStringRaw = None, chainCode = None\<rparr>))"

definition fromBytes :: "env \<Rightarrow> bytes \<Rightarrow> error + Ed25519PrivateKey" where
  "fromBytes E bs =
     andThen
       (if length bs = 32 then nacl_fromSeed E bs
        else if length bs = 64 then nacl_fromSecretKey bs
        else Inl BadKeyError)
       (\<lambda>keypair. newKey E \<lparr>privateKey = secretKey keypair,
                             rawPublicKey = naclPublicKey keypair\<rparr>)"

definition fromString :: "env \<Rightarrow> string \<Rightarrow> error + Ed25519PrivateKey" where
  "fromString E keyStr =
     (if length keyStr = 64 \<or> length keyStr = 128 then
        andThen (decodeHex E keyStr) (\<lambda>bs.
        andThen (fromBytes E bs) (\<lambda>k.
        Inr (k\<lparr>asStringRaw := Some keyStr\<rparr>)))
      else if length keyStr = 96 \<and> prefix (ed25519PrivKeyPrefix E) keyStr then
        (let rawStr = drop 32 keyStr in
         andThen (decodeHex E rawStr) (\<lambda>bs.
         andThen (fromBytes E bs) (\<lambda>k.
         Inr (k\<lparr>asStringRaw := Some rawStr\<rparr>))))
      else Inl BadKeyError)"

subsection \<open>Derivation\<close>

definition bigEndian32 :: "32 word \<Rightarrow> bytes" where
  "bigEndian32 w = [ucast (drop_bit 24 w), ucast (drop_bit 16 w), ucast (drop_bit 8 w), ucast w]"

text \<open>
  Modelled from the spec: \<open>deriveChildKey\<close> of \<open>util.ts\<close>, which is not in the excerpt.
  The index is an unsigned 32-bit number and is combined with the hardening offset
  \<open>2 ^ 31\<close> (its top bit is set); the digest is
  \<open>HMAC-SHA512(key = chainCode, message = 0x00 || keyBytes || bigEndian32 hardenedIndex)\<close>,
  its left 32 bytes the child key and the rest the child chain code.
\<close>

definition deriveChildKey :: "env \<Rightarrow> bytes \<Rightarrow> bytes \<Rightarrow> 32 word \<Rightarrow> bytes \<times> bytes" where
  "deriveChildKey E kb cc index =
     (let digest = hmacSha512 E cc ([0] @ kb @ bigEndian32 (index OR 0x80000000))
      in (take 32 digest, drop 32 digest))"

text \<open>Modelled from the spec: \<open>Mnemonic.toString\<close>, the words joined by single spaces.\<close>

fun joinWords :: "string list \<Rightarrow> string" where
  "joinWords [] = []"
| "joinWords [w] = w"
| "joinWords (w # ws) = w @ '' '' @ joinWords ws"

fun mnemonic_toString :: "Mnemonic \<Rightarrow> string" where
  "mnemonic_toString (Mnemonic ws) = joinWords ws"

definition fromMnemonic :: "env \<Rightarrow> Mnemonic \<Rightarrow> string \<Rightarrow> error + Ed25519PrivateKey" where
  "fromMnemonic E mnemonic passphrase =
     (let input = mnemonic_toString mnemonic;
          salt = ''mnemonic'' @ passphrase;
          seed = pbkdf2 E input salt 2048 64 ''sha512'';
          digest = hmacSha512 E (ascii ''ed25519 seed'') seed;
          keyBytes = take 32 digest;
          chainCode0 = drop 32 digest;
          (kb, cc) = foldl (\<lambda>(kb, cc) index. deriveChildKey E kb cc index)
                       (keyBytes, chainCode0) [44, 3030, 0, 0]
      in andThen (fromBytes E kb) (\<lambda>k. Inr (k\<lparr>chainCode := Some cc\<rparr>)))"

text \<open>
  The pipeline in the words of the spec, to compare \<open>fromMnemonic\<close> with: the phrase, the
  PBKDF2 seed, the HMAC digest split in two halves, and the child-derivation step applied
  four times, at 44, 3030, 0 and 0. The result is the final key bytes and chain code.
\<close>

definition childStep :: "env \<Rightarrow> bytes \<times> bytes \<Rightarrow> 32 word \<Rightarrow> bytes \<times> bytes" where
  "childStep E kc index = deriveChildKey E (fst kc) (snd kc) index"

definition mnemonic_pipeline :: "env \<Rightarrow> Mnemonic \<Rightarrow> string \<Rightarrow> bytes \<times> bytes" where
  "mnemonic_pipeline E mnemonic passphrase =
     (let phrase = mnemonic_toString mnemonic;
          seed = pbkdf2 E phrase (''mnemonic'' @ passphrase) 2048 64 ''sha512'';
          digest = hmacSha512 E (ascii ''ed25519 seed'') seed;
          root = (take 32 digest, drop 32 digest);
          purpose = childStep E root 44;
          coin = childStep E purpose 3030;
          account = childStep E coin 0
      in childStep E account 0)"

definition fromKeystore :: "env \<Rightarrow> bytes \<Rightarrow> string \<Rightarrow> error + Ed25519PrivateKey" where
  "fromKeystore E keystore passphrase =
     andThen (loadKeystore E keystore passphrase) (newKey E)"

definition generate :: "env \<Rightarrow> error + Ed25519PrivateKey" where
  "generate E = andThen (randomBytes E 32) (fromBytes E)"

definition derive :: "env \<Rightarrow> Ed25519PrivateKey \<Rightarrow> 32 word \<Rightarrow> error + Ed25519PrivateKey" where
  "derive E this index =
     (case chainCode this of
        None \<Rightarrow> Inl (Error ''this Ed25519 private key does not support key derivation'')
      | Some c \<Rightarrow>
          (let (kb, cc) = deriveChildKey E (take 32 (keyData this)) c index
           in andThen (fromBytes E kb) (\<lambda>k. Inr (k\<lparr>chainCode := Some cc\<rparr>))))"


subsection \<open>Encoding\<close>

definition toBytes :: "Ed25519PrivateKey \<Rightarrow> bytes" where
  "toBytes this = take 32 (keyData this)"

text \<open>\<open>toString\<close> may fill the cache, so it returns the key with the string.\<close>

definition toString :: "env \<Rightarrow> bool \<Rightarrow> Ed25519PrivateKey \<Rightarrow> string \<times> Ed25519PrivateKey" where
  "toString E raw this =
     (case asStringRaw this of
        None \<Rightarrow>
          (let s = encodeHex (take 32 (keyData this))
           in ((if raw then [] else ed25519PrivKeyPrefix E) @ s, this\<lparr>asStringRaw := Some s\<rparr>))
      | Some s \<Rightarrow> ((if raw then [] else ed25519PrivKeyPrefix E) @ s, this))"

text \<open>\<open>toKeystore\<close> assigns no field; the key is returned beside the blob to say so.\<close>

definition toKeystore :: "env \<Rightarrow> Ed25519PrivateKey \<Rightarrow> string \<Rightarrow> bytes \<times> Ed25519PrivateKey" where
  "toKeystore E this passphrase = (createKeystore E (keyData this) passphrase, this)"



section \<open>Construction paths\<close>

text \<open>
  How a key object came to be: one of the five static constructors, \<open>derive\<close> on a key,
  or a key after a call of \<open>toString\<close> (the only method that assigns a field).
\<close>

datatype construction =
    FromBytes bytes
  | FromString string
  | FromMnemonic Mnemonic string
  | FromKeystore bytes string
  | Generate
  | Derive construction "32 word"
  | ToString construction bool

fun build :: "env \<Rightarrow> construction \<Rightarrow> error + Ed25519PrivateKey" where
  "build E (FromBytes bs) = fromBytes E bs"
| "build E (FromString s) = fromString E s"
| "build E (FromMnemonic m p) = fromMnemonic E m p"
| "build E (FromKeystore blob p) = fromKeystore E blob p"
| "build E Generate = generate E"
| "build E (Derive c i) = andThen (build E c) (\<lambda>k. derive E k i)"
| "build E (ToString c raw) = andThen (build E c) (\<lambda>k. Inr (snd (toString E raw k)))"


text \<open>The paths that return a key whose string cache has not been assigned.\<close>

fun cacheUnset :: "construction \<Rightarrow> bool" where
  "cacheUnset (FromString s) = False"
| "cacheUnset (ToString c raw) = False"
| "cacheUnset _ = True"

text \<open>The paths on which no string of 128 digits has filled the cache.\<close>

fun pairStringFree :: "construction \<Rightarrow> bool" where
  "pairStringFree (FromString s) = (length s \<noteq> 128)"
| "pairStringFree (ToString c raw) = pairStringFree c"
| "pairStringFree _ = True"

text \<open>A cached string is good when it is 64 characters that decode to bytes with the key's seed.\<close>

definition cacheGood :: "env \<Rightarrow> Ed25519PrivateKey \<Rightarrow> bool" where
  "cacheGood E k =
     (case asStringRaw k of
        None \<Rightarrow> True
      | Some s \<Rightarrow> length s = 64
          \<and> (case decodeHex E s of
               Inl e \<Rightarrow> False
             | Inr bs \<Rightarrow> (case fromBytes E bs of
                            Inl e \<Rightarrow> False
                          | Inr k0 \<Rightarrow> toBytes k0 = toBytes k)))"

section \<open>Typed arrays in a store\<close>

text \<open>
  Where aliasing matters, a \<open>Uint8Array\<close> is a window on an \<open>ArrayBuffer\<close>: the store
  holds the buffers by address, \<open>subarray\<close> makes a second window on the same buffer and
  \<open>slice\<close> allocates a new buffer and copies into it. Both take a start and an end and
  clamp them to the length of the array. A write through a window changes the buffer
  under it; a write past the end of the window is ignored, as JavaScript does.
\<close>

type_synonym store = "bytes list"

record Uint8Array =
  buffer :: nat
  byteOffset :: nat
  byteLength :: nat

definition contents :: "store \<Rightarrow> Uint8Array \<Rightarrow> bytes" where
  "contents st a = take (byteLength a) (drop (byteOffset a) (st ! buffer a))"

definition setByte :: "store \<Rightarrow> Uint8Array \<Rightarrow> nat \<Rightarrow> byte \<Rightarrow> store" where
  "setByte st a i v =
     (if i < byteLength a
      then st[buffer a := (st ! buffer a)[byteOffset a + i := v]]
      else st)"

definition subarray :: "Uint8Array \<Rightarrow> nat \<Rightarrow> nat \<Rightarrow> Uint8Array" where
  "subarray a start fin =
     (let b = min start (byteLength a); e = min fin (byteLength a)
      in \<lparr>buffer = buffer a, byteOffset = byteOffset a + b, byteLength = e - b\<rparr>)"

definition slice_array :: "store \<Rightarrow> Uint8Array \<Rightarrow> nat \<Rightarrow> nat \<Rightarrow> store \<times> Uint8Array" where
  "slice_array st a start fin =
     (let b = min start (byteLength a); e = min fin (byteLength a);
          copy = take (e - b) (drop b (contents st a))
      in (st @ [copy], \<lparr>buffer = length st, byteOffset = 0, byteLength = length copy\<rparr>))"

text \<open>
  The key object with its two array fields as windows into the store, and the key value
  that it stands for in a given store.
\<close>

record KeyObject =
  publicKeyField :: Ed25519PublicKey
  keyDataField :: Uint8Array
  asStringRawField :: "string option"
  chainCodeField :: "Uint8Array option"

definition allocated :: "store \<Rightarrow> Uint8Array \<Rightarrow> bool" where
  "allocated st a = (buffer a < length st)"

definition wellFormed :: "store \<Rightarrow> KeyObject \<Rightarrow> bool" where
  "wellFormed st obj =
     (allocated st (keyDataField obj)
      \<and> (case chainCodeField obj of None \<Rightarrow> True | Some c \<Rightarrow> allocated st c))"

definition keyOf :: "store \<Rightarrow> KeyObject \<Rightarrow> Ed25519PrivateKey" where
  "keyOf st obj =
     \<lparr>publicKey = publicKeyField obj,
      keyData = contents st (keyDataField obj),
      asStringRaw = asStringRawField obj,
      chainCode = map_option (contents st) (chainCodeField obj)\<rparr>"

text \<open>\<open>toBytes\<close> on the store: \<open>this._keyData.slice(0, 32)\<close>.\<close>

definition toBytes_store :: "store \<Rightarrow> KeyObject \<Rightarrow> store \<times> Uint8Array" where
  "toBytes_store st this = slice_array st (keyDataField this) 0 32"

text \<open>A caller writing into an array, one index and value after the other.\<close>

definition writeAll :: "store \<Rightarrow> Uint8Array \<Rightarrow> (nat \<times> byte) list \<Rightarrow> store" where
  "writeAll st a ws = foldl (\<lambda>s (i, v). setByte s a i v) st ws"

section \<open>Contracts of the collaborators\<close>

text \<open>tweetnacl allocates the public key as 32 bytes.\<close>

definition nacl_contract :: "env \<Rightarrow> bool" where
  "nacl_contract E = (\<forall>seed. length (edPublicKey E seed) = 32)"

text \<open>
  Modelled from the spec: \<open>Ed25519PublicKey.fromBytes\<close>, which is not in the excerpt. The
  spec has the public-key type constructible from 32 raw bytes and asks nothing more.
\<close>

definition publicKey_contract :: "env \<Rightarrow> bool" where
  "publicKey_contract E = (\<forall>bs. length bs = 32 \<longrightarrow> ok (publicKeyFromBytes E bs))"

text \<open>HMAC-SHA512 returns 64 bytes.\<close>

definition hmac_contract :: "env \<Rightarrow> bool" where
  "hmac_contract E = (\<forall>k m. length (hmacSha512 E k m) = 64)"

text \<open>
  Modelled from the spec: the constant \<open>ed25519PrivKeyPrefix\<close> of \<open>util.ts\<close>, which is not
  in the excerpt. The spec has it a fixed prefix of 32 characters.
\<close>

definition prefix_contract :: "env \<Rightarrow> bool" where
  "prefix_contract E = (length (ed25519PrivKeyPrefix E) = 32)"

text \<open>
  Modelled from the spec: \<open>createKeystore\<close> and \<open>loadKeystore\<close> of \<open>Keystore.ts\<close>, which
  is not in the excerpt. Decoding a blob with the passphrase that made it gives back the
  bytes that were encrypted, as the key pair the constructor takes; decoding with any other
  passphrase is the authentication failure \<open>KeyMismatchError\<close>.
\<close>

definition keystore_contract :: "env \<Rightarrow> bool" where
  "keystore_contract E =
     (\<forall>data p. length data = 64 \<longrightarrow>
        loadKeystore E (createKeystore E data p) p
          = Inr \<lparr>privateKey = data, rawPublicKey = drop 32 data\<rparr>
        \<and> (\<forall>p'. p' \<noteq> p \<longrightarrow>
              loadKeystore E (createKeystore E data p) p' = Inl KeyMismatchError))"

text \<open>
  Modelled from the spec: the key pair that \<open>loadKeystore\<close> of \<open>Keystore.ts\<close> returns,
  which is not in the excerpt. The spec has a key hold its seed with the public key; the
  pair that the loader hands to the constructor is then the 64-byte private key with its
  second half as the public key.
\<close>

definition keystore_pair_contract :: "env \<Rightarrow> bool" where
  "keystore_pair_contract E =
     (\<forall>blob p rp. loadKeystore E blob p = Inr rp \<longrightarrow> rawPublicKey rp = drop 32 (privateKey rp))"

section \<open>A small instance of the collaborators\<close>

text \<open>
  Stand-ins of the right shapes, so that the model runs on concrete inputs. They are not
  cryptography: the public key is the seed with every byte incremented, the MAC and the
  KDF pad their inputs, the keystore appends the passphrase to the data.
\<close>

definition toy_edPublicKey :: "bytes \<Rightarrow> bytes" where
  "toy_edPublicKey seed = map (\<lambda>b. b + 1) (take 32 (seed @ replicate 32 0))"

definition toy_publicKeyFromBytes :: "bytes \<Rightarrow> error + Ed25519PublicKey" where
  "toy_publicKeyFromBytes bs =
     (if length bs = 32 then Inr (Ed25519PublicKey bs) else Inl BadKeyError)"

definition toy_pbkdf2 :: "string \<Rightarrow> string \<Rightarrow> nat \<Rightarrow> nat \<Rightarrow> string \<Rightarrow> bytes" where
  "toy_pbkdf2 password salt iterations keylen digest =
     take keylen (ascii password @ ascii salt @ replicate keylen 0)"

definition toy_hmacSha512 :: "bytes \<Rightarrow> bytes \<Rightarrow> bytes" where
  "toy_hmacSha512 k m = take 64 (k @ m @ replicate 64 0)"

definition toy_createKeystore :: "bytes \<Rightarrow> string \<Rightarrow> bytes" where
  "toy_createKeystore data p = data @ ascii p"

definition toy_loadKeystore :: "bytes \<Rightarrow> string \<Rightarrow> error + RawKeyPair" where
  "toy_loadKeystore blob p =
     (if length blob < 64 then Inl (Error ''malformed keystore'')
      else if drop 64 blob = ascii p
      then Inr \<lparr>privateKey = take 64 blob, rawPublicKey = drop 32 (take 64 blob)\<rparr>
      else Inl KeyMismatchError)"

definition toyEnv :: env where
  "toyEnv =
     \<lparr>edPublicKey = toy_edPublicKey,
      publicKeyFromBytes = toy_publicKeyFromBytes,
      decodeHexOther = (\<lambda>s. Inl (Error ''invalid hex string'')),
      ed25519PrivKeyPrefix = ''302e020100300506032b657004220420'',
      pbkdf2 = toy_pbkdf2,
      hmacSha512 = toy_hmacSha512,
      randomBytes = (\<lambda>n. Inr (replicate n 7)),
      createKeystore = toy_createKeystore,
      loadKeystore = toy_loadKeystore\<rparr>"

text \<open>The key that the instance builds from 32 zero bytes.\<close>

definition zeroSeedKey :: Ed25519PrivateKey where
  "zeroSeedKey =
     \<lparr>publicKey = Ed25519PublicKey (replicate 32 1),
      keyData = replicate 32 0 @ replicate 32 1,
      asStringRaw = None, chainCode = None\<rparr>"



definition pairHex :: string where
  "pairHex = replicate 128 (CHR ''a'')"

definition pairHexKey :: Ed25519PrivateKey where
  "pairHexKey =
     \<lparr>publicKey = Ed25519PublicKey (replicate 32 170),
      keyData = replicate 64 170,
      asStringRaw = Some pairHex, chainCode = None\<rparr>"



text \<open>A store with one buffer of 64 bytes and a key object whose key data is that buffer.\<close>

definition oneBufferStore :: store where
  "oneBufferStore = [replicate 32 1 @ replicate 32 2]"

definition oneBufferKey :: KeyObject where
  "oneBufferKey =
     \<lparr>publicKeyField = Ed25519PublicKey (replicate 32 2),
      keyDataField = \<lparr>buffer = 0, byteOffset = 0, byteLength = 64\<rparr>,
      asStringRawField = None,
      chainCodeField = None\<rparr>"





section \<open>Results, sequencing and the constructor\<close>

lemma andThen_Inl: "andThen (Inl e) f = Inl e"
  by (simp add: andThen_def)

lemma andThen_Inr: "andThen (Inr x) f = f x"
  by (simp add: andThen_def)

lemma andThen_eq_Inr: "andThen r f = Inr y \<longleftrightarrow> (\<exists>x. r = Inr x \<and> f x = Inr y)"
  by (cases r) (simp_all add: andThen_def)


lemma ok_Inr: "ok (Inr x)"
  by (simp add: ok_def)

lemma ok_iff: "ok r \<longleftrightarrow> (\<exists>x. r = Inr x)"
  by (cases r) (simp_all add: ok_def)

lemma fromBytes_other:
  "length bs \<noteq> 32 \<Longrightarrow> length bs \<noteq> 64 \<Longrightarrow> fromBytes E bs = Inl BadKeyError"
  by (simp add: fromBytes_def andThen_Inl)

lemma fromBytes_32:
  assumes "nacl_contract E" and "publicKey_contract E" and "length bs = 32"
  shows "\<exists>pk. publicKeyFromBytes E (edPublicKey E bs) = Inr pk \<and>
           fromBytes E bs = Inr \<lparr>publicKey = pk, keyData = bs @ edPublicKey E bs,
                                  asStringRaw = None, chainCode = None\<rparr>"
proof -
  have len: "length (edPublicKey E bs) = 32"
    using assms(1) by (simp add: nacl_contract_def)
  then obtain pk where pk: "publicKeyFromBytes E (edPublicKey E bs) = Inr pk"
    using assms(2) by (auto simp: publicKey_contract_def ok_iff)
  show ?thesis
    using pk len assms(3)
    by (simp add: fromBytes_def nacl_fromSeed_def newKey_def secretKeyLength_def andThen_Inr)
qed

lemma fromBytes_64:
  assumes "publicKey_contract E" and "length bs = 64"
  shows "\<exists>pk. publicKeyFromBytes E (drop 32 bs) = Inr pk \<and>
           fromBytes E bs = Inr \<lparr>publicKey = pk, keyData = bs,
                                  asStringRaw = None, chainCode = None\<rparr>"
proof -
  have "length (drop 32 bs) = 32"
    using assms(2) by simp
  then obtain pk where pk: "publicKeyFromBytes E (drop 32 bs) = Inr pk"
    using assms(1) unfolding publicKey_contract_def ok_iff by blast
  show ?thesis
    using pk assms(2)
    by (simp add: fromBytes_def nacl_fromSecretKey_def newKey_def secretKeyLength_def andThen_Inr)
qed

lemma newKey_Inr:
  assumes "newKey E rp = Inr k"
  shows "length (keyData k) = 64 \<and> keyData k = privateKey rp \<and> asStringRaw k = None
         \<and> chainCode k = None \<and> publicKeyFromBytes E (rawPublicKey rp) = Inr (publicKey k)"
  using assms
  by (auto simp: newKey_def secretKeyLength_def andThen_eq_Inr split: if_splits)

lemma fromBytes_Inr:
  assumes "fromBytes E bs = Inr k"
  shows "length (keyData k) = 64 \<and> asStringRaw k = None \<and> chainCode k = None
         \<and> (length bs = 32 \<or> length bs = 64) \<and> take 32 (keyData k) = take 32 bs
         \<and> publicKeyFromBytes E (drop 32 (keyData k)) = Inr (publicKey k)"
proof -
  from assms obtain kp where
    kp: "(if length bs = 32 then nacl_fromSeed E bs
          else if length bs = 64 then nacl_fromSecretKey bs
          else Inl BadKeyError) = Inr kp"
    and nk: "newKey E \<lparr>privateKey = secretKey kp, rawPublicKey = naclPublicKey kp\<rparr> = Inr k"
    by (auto simp: fromBytes_def andThen_eq_Inr)
  from newKey_Inr [OF nk] have k: "length (keyData k) = 64" "keyData k = secretKey kp"
    "asStringRaw k = None" "chainCode k = None"
    "publicKeyFromBytes E (naclPublicKey kp) = Inr (publicKey k)"
    by auto
  from kp consider (seed) "length bs = 32" "kp = \<lparr>secretKey = bs @ edPublicKey E bs,
        naclPublicKey = edPublicKey E bs\<rparr>"
    | (pair) "length bs = 64" "kp = \<lparr>secretKey = bs, naclPublicKey = drop 32 bs\<rparr>"
    by (auto simp: nacl_fromSeed_def nacl_fromSecretKey_def split: if_splits)
  then show ?thesis
  proof cases
    case seed
    with k show ?thesis by simp
  next
    case pair
    with k show ?thesis by simp
  qed
qed

section \<open>The small instance: lengths of its primitives\<close>

lemma toy_nacl: "nacl_contract toyEnv"
  by (auto simp: nacl_contract_def toyEnv_def toy_edPublicKey_def)

lemma toy_publicKey: "publicKey_contract toyEnv"
  by (simp add: publicKey_contract_def toyEnv_def toy_publicKeyFromBytes_def ok_def)

lemma toy_hmac: "hmac_contract toyEnv"
  by (auto simp: hmac_contract_def toyEnv_def toy_hmacSha512_def)

lemma toy_prefix: "prefix_contract toyEnv"
  by (simp add: prefix_contract_def toyEnv_def)

section \<open>Construction from bytes\<close>

text \<open>
  Claim C5. \<open>fromBytes\<close> succeeds exactly on inputs of 32 or 64 bytes and fails with
  \<open>BadKeyError\<close> on every other length. On 32 bytes the public key is the one the Ed25519
  primitive derives from the seed; on 64 bytes it is the second half of the input, taken
  as it is. What is returned is a complete key: 64 bytes of key data whose second half
  made the public key object, and no chain code.
\<close>

theorem fromBytes_length_gate:
  assumes "nacl_contract E" and "publicKey_contract E"
  shows "(ok (fromBytes E bs) \<longleftrightarrow> length bs = 32 \<or> length bs = 64)
       \<and> (length bs \<noteq> 32 \<and> length bs \<noteq> 64 \<longrightarrow> fromBytes E bs = Inl BadKeyError)
       \<and> (length bs = 32 \<longrightarrow>
            (\<exists>pk. publicKeyFromBytes E (edPublicKey E bs) = Inr pk \<and>
               fromBytes E bs = Inr \<lparr>publicKey = pk, keyData = bs @ edPublicKey E bs,
                                      asStringRaw = None, chainCode = None\<rparr>))
       \<and> (length bs = 64 \<longrightarrow>
            (\<exists>pk. publicKeyFromBytes E (drop 32 bs) = Inr pk \<and>
               fromBytes E bs = Inr \<lparr>publicKey = pk, keyData = bs,
                                      asStringRaw = None, chainCode = None\<rparr>))
       \<and> (\<forall>k. fromBytes E bs = Inr k \<longrightarrow>
            length (keyData k) = 64 \<and> toBytes k = take 32 bs \<and> chainCode k = None
            \<and> publicKeyFromBytes E (drop 32 (keyData k)) = Inr (publicKey k))"
proof (intro conjI impI allI)
  show "ok (fromBytes E bs) \<longleftrightarrow> length bs = 32 \<or> length bs = 64"
  proof
    assume "ok (fromBytes E bs)"
    then obtain k where "fromBytes E bs = Inr k" by (auto simp: ok_iff)
    from fromBytes_Inr [OF this] show "length bs = 32 \<or> length bs = 64" by simp
  next
    assume "length bs = 32 \<or> length bs = 64"
    then show "ok (fromBytes E bs)"
      using fromBytes_32 [OF assms, of bs] fromBytes_64 [OF assms(2), of bs]
      by (auto simp: ok_iff)
  qed
next
  assume "length bs \<noteq> 32 \<and> length bs \<noteq> 64"
  then show "fromBytes E bs = Inl BadKeyError" by (simp add: fromBytes_other)
next
  assume "length bs = 32"
  then show "\<exists>pk. publicKeyFromBytes E (edPublicKey E bs) = Inr pk \<and>
               fromBytes E bs = Inr \<lparr>publicKey = pk, keyData = bs @ edPublicKey E bs,
                                      asStringRaw = None, chainCode = None\<rparr>"
    by (rule fromBytes_32 [OF assms])
next
  assume "length bs = 64"
  then show "\<exists>pk. publicKeyFromBytes E (drop 32 bs) = Inr pk \<and>
               fromBytes E bs = Inr \<lparr>publicKey = pk, keyData = bs,
                                      asStringRaw = None, chainCode = None\<rparr>"
    by (rule fromBytes_64 [OF assms(2)])
next
  fix k assume k: "fromBytes E bs = Inr k"
  from fromBytes_Inr [OF k]
  show "length (keyData k) = 64" "toBytes k = take 32 bs" "chainCode k = None"
    "publicKeyFromBytes E (drop 32 (keyData k)) = Inr (publicKey k)"
    by (simp_all add: toBytes_def)
qed

theorem fromBytes_length_gate_witness:
  "nacl_contract toyEnv \<and> publicKey_contract toyEnv
   \<and> ok (fromBytes toyEnv (replicate 32 0))
   \<and> ok (fromBytes toyEnv (replicate 64 5))
   \<and> fromBytes toyEnv [1, 2, 3] = Inl BadKeyError"
  using fromBytes_length_gate [OF toy_nacl toy_publicKey, of "replicate 32 0"]
    fromBytes_length_gate [OF toy_nacl toy_publicKey, of "replicate 64 5"]
    fromBytes_length_gate [OF toy_nacl toy_publicKey, of "[1, 2, 3]"]
    toy_nacl toy_publicKey
  by simp

section \<open>Hexadecimal codec: decoding inverts encoding\<close>


lemma length_encodeHex: "length (encodeHex bs) = 2 * length bs"
  by (induction bs) (simp_all add: encodeHex_def)

lemma encodeHex_Cons:
  "encodeHex (b # bs) = hexDigit (unat b div 16) # hexDigit (unat b mod 16) # encodeHex bs"
  by (simp add: encodeHex_def)

lemma encodeHex_Nil: "encodeHex [] = []"
  by (simp add: encodeHex_def)

lemma digitVal_hexDigit: "n < 16 \<Longrightarrow> digitVal (hexDigit n) = n"
  by (simp add: digitVal_def hexDigit_def Let_def)

lemma hexDigit_lower: "n < 16 \<Longrightarrow> is_lower_hex_char (hexDigit n)"
  by (simp add: is_lower_hex_char_def hexDigit_def Let_def)

lemma unat_byte_div16: "unat (b :: byte) div 16 < 16"
proof -
  have "unat b < 2 ^ LENGTH(8)" by (rule unsigned_less)
  then show ?thesis by simp
qed

lemma byte_of_nibbles: "(of_nat (16 * (unat b div 16) + unat b mod 16) :: byte) = b"
  by simp

lemma hexBytes_encodeHex: "hexBytes (encodeHex bs) = bs"
proof (induction bs)
  case Nil
  show ?case by (simp add: encodeHex_Nil)
next
  case (Cons b bs)
  have "digitVal (hexDigit (unat b div 16)) = unat b div 16"
    by (rule digitVal_hexDigit) (rule unat_byte_div16)
  moreover have "digitVal (hexDigit (unat b mod 16)) = unat b mod 16"
    by (rule digitVal_hexDigit) simp
  ultimately show ?case
    using Cons.IH by (simp add: encodeHex_Cons byte_of_nibbles del: of_nat_add of_nat_mult)
qed

lemma is_lower_hex_encodeHex: "is_lower_hex (encodeHex bs)"
proof (induction bs)
  case Nil
  show ?case by (simp add: encodeHex_Nil is_lower_hex_def)
next
  case (Cons b bs)
  have "is_lower_hex_char (hexDigit (unat b div 16))"
    by (rule hexDigit_lower) (rule unat_byte_div16)
  moreover have "is_lower_hex_char (hexDigit (unat b mod 16))"
    by (rule hexDigit_lower) simp
  ultimately show ?case
    using Cons.IH unfolding encodeHex_Cons is_lower_hex_def by simp
qed

lemma is_lower_hex_is_hex: "is_lower_hex s \<Longrightarrow> is_hex s"
  unfolding is_lower_hex_def is_hex_def list_all_iff
  by (auto simp: is_lower_hex_char_def is_hex_char_def Let_def)

lemma is_hex_encodeHex: "is_hex (encodeHex bs)"
  by (rule is_lower_hex_is_hex) (rule is_lower_hex_encodeHex)


lemma is_hex_append: "is_hex (s @ t) \<longleftrightarrow> is_hex s \<and> is_hex t"
  by (simp add: is_hex_def)


lemma decodeHex_encodeHex: "decodeHex E (encodeHex bs) = Inr bs"
  by (simp add: decodeHex_def is_hex_encodeHex length_encodeHex hexBytes_encodeHex)

section \<open>Construction from strings\<close>

lemma fromString_other:
  "length s \<noteq> 64 \<Longrightarrow> length s \<noteq> 96 \<Longrightarrow> length s \<noteq> 128 \<Longrightarrow> fromString E s = Inl BadKeyError"
  by (simp add: fromString_def)





lemma toyEnv_prefix: "ed25519PrivKeyPrefix toyEnv = ''302e020100300506032b657004220420''"
  by (simp add: toyEnv_def)














section \<open>Derivation\<close>

lemma deriveChildKey_lengths:
  assumes "hmac_contract E"
  shows "length (fst (deriveChildKey E kb cc i)) = 32 \<and> length (snd (deriveChildKey E kb cc i)) = 32"
  using assms by (simp add: deriveChildKey_def hmac_contract_def Let_def)

lemma derive_None:
  "chainCode k = None \<Longrightarrow>
     derive E k i = Inl (Error ''this Ed25519 private key does not support key derivation'')"
  by (simp add: derive_def)

lemma derive_Some:
  "chainCode k = Some c \<Longrightarrow>
     derive E k i
       = andThen (fromBytes E (fst (deriveChildKey E (take 32 (keyData k)) c i)))
           (\<lambda>k'. Inr (k'\<lparr>chainCode := Some (snd (deriveChildKey E (take 32 (keyData k)) c i))\<rparr>))"
  by (simp add: derive_def split_def Let_def)

lemma derive_Inr:
  assumes "derive E k i = Inr k'"
  shows "chainCode k \<noteq> None \<and> chainCode k' \<noteq> None \<and> length (keyData k') = 64
         \<and> asStringRaw k' = None
         \<and> publicKeyFromBytes E (drop 32 (keyData k')) = Inr (publicKey k')"
proof (cases "chainCode k")
  case None
  with assms show ?thesis by (simp add: derive_None)
next
  case (Some c)
  with assms obtain k0 where k0: "fromBytes E (fst (deriveChildKey E (take 32 (keyData k)) c i)) = Inr k0"
    and k': "k' = k0\<lparr>chainCode := Some (snd (deriveChildKey E (take 32 (keyData k)) c i))\<rparr>"
    by (auto simp: derive_Some andThen_eq_Inr)
  from fromBytes_Inr [OF k0] k' Some show ?thesis by simp
qed


lemma fromMnemonic_pipeline:
  "fromMnemonic E m p
     = andThen (fromBytes E (fst (mnemonic_pipeline E m p)))
         (\<lambda>k. Inr (k\<lparr>chainCode := Some (snd (mnemonic_pipeline E m p))\<rparr>))"
  by (simp add: fromMnemonic_def mnemonic_pipeline_def childStep_def Let_def split_def)

lemma mnemonic_pipeline_lengths:
  assumes "hmac_contract E"
  shows "length (fst (mnemonic_pipeline E m p)) = 32 \<and> length (snd (mnemonic_pipeline E m p)) = 32"
  using deriveChildKey_lengths [OF assms]
  by (simp add: mnemonic_pipeline_def childStep_def Let_def)

lemma fromMnemonic_Inr:
  assumes "fromMnemonic E m p = Inr k"
  shows "chainCode k \<noteq> None \<and> length (keyData k) = 64 \<and> asStringRaw k = None
         \<and> publicKeyFromBytes E (drop 32 (keyData k)) = Inr (publicKey k)"
proof -
  from assms obtain k0 where k0: "fromBytes E (fst (mnemonic_pipeline E m p)) = Inr k0"
    and k: "k = k0\<lparr>chainCode := Some (snd (mnemonic_pipeline E m p))\<rparr>"
    by (auto simp: fromMnemonic_pipeline andThen_eq_Inr)
  from fromBytes_Inr [OF k0] k show ?thesis by simp
qed

text \<open>
  Claim C1. \<open>fromMnemonic\<close> is the pipeline of the spec: the phrase of the mnemonic, PBKDF2
  over it with salt \<open>mnemonic\<close> followed by the passphrase, 2048 iterations, 64 bytes,
  SHA-512; HMAC-SHA512 of that seed under the key \<open>ed25519 seed\<close>; the left 32 bytes as key
  and the rest as chain code; the child step at 44, 3030, 0 and 0. The key it returns is
  \<open>fromBytes\<close> of the final key bytes with the final chain code attached; with the
  primitives returning the lengths they promise, those key bytes are 32 bytes long and the
  call returns a key whose seed they are.
\<close>

theorem fromMnemonic_is_pipeline:
  assumes "nacl_contract E" and "publicKey_contract E" and "hmac_contract E"
  shows "fromMnemonic E m p
           = andThen (fromBytes E (fst (mnemonic_pipeline E m p)))
               (\<lambda>k. Inr (k\<lparr>chainCode := Some (snd (mnemonic_pipeline E m p))\<rparr>))
       \<and> length (fst (mnemonic_pipeline E m p)) = 32
       \<and> length (snd (mnemonic_pipeline E m p)) = 32
       \<and> (\<exists>k. fromMnemonic E m p = Inr k
              \<and> toBytes k = fst (mnemonic_pipeline E m p)
              \<and> chainCode k = Some (snd (mnemonic_pipeline E m p)))"
proof -
  let ?kb = "fst (mnemonic_pipeline E m p)"
  have len: "length ?kb = 32"
    using mnemonic_pipeline_lengths [OF assms(3)] by simp
  from fromBytes_32 [OF assms(1,2) len] obtain k0 where
    k0: "fromBytes E ?kb = Inr k0" and kd: "keyData k0 = ?kb @ edPublicKey E ?kb"
    by auto
  from kd len have "take 32 (keyData k0) = ?kb" by simp
  then have "\<exists>k. fromMnemonic E m p = Inr k \<and> toBytes k = ?kb
              \<and> chainCode k = Some (snd (mnemonic_pipeline E m p))"
    using k0 by (simp add: fromMnemonic_pipeline andThen_Inr toBytes_def)
  then show ?thesis
    using mnemonic_pipeline_lengths [OF assms(3), of m p] fromMnemonic_pipeline [of E m p]
    by blast
qed

theorem fromMnemonic_is_pipeline_witness:
  "nacl_contract toyEnv \<and> publicKey_contract toyEnv \<and> hmac_contract toyEnv
   \<and> length (fst (mnemonic_pipeline toyEnv (Mnemonic [''abandon'', ''ability'']) ''pw'')) = 32
   \<and> ok (fromMnemonic toyEnv (Mnemonic [''abandon'', ''ability'']) ''pw'')"
proof -
  note pipe = fromMnemonic_is_pipeline [OF toy_nacl toy_publicKey toy_hmac,
      of "Mnemonic [''abandon'', ''ability'']" "''pw''"]
  from pipe have "length (fst (mnemonic_pipeline toyEnv (Mnemonic [''abandon'', ''ability'']) ''pw'')) = 32"
    by blast
  moreover from pipe have "ok (fromMnemonic toyEnv (Mnemonic [''abandon'', ''ability'']) ''pw'')"
    unfolding ok_iff by blast
  ultimately show ?thesis
    using toy_nacl toy_publicKey toy_hmac by blast
qed

section \<open>The small instance meets the contracts\<close>

lemma toy_zeroSeedKey: "fromBytes toyEnv (replicate 32 0) = Inr zeroSeedKey"
  by (simp add: fromBytes_def nacl_fromSeed_def newKey_def secretKeyLength_def andThen_def
      toyEnv_def toy_edPublicKey_def toy_publicKeyFromBytes_def zeroSeedKey_def)

lemma toy_keystore_pair: "keystore_pair_contract toyEnv"
  by (auto simp: keystore_pair_contract_def toyEnv_def toy_loadKeystore_def split: if_splits)

lemma ascii_inj: "ascii p = ascii q \<Longrightarrow> p = q"
proof -
  have "inj (of_char :: char \<Rightarrow> byte)"
  proof (rule injI)
    fix x y :: char
    assume "(of_char x :: byte) = of_char y"
    then have "(of_nat (of_char x :: nat) :: byte) = of_nat (of_char y :: nat)"
      by (simp only: of_nat_of_char)
    then have "unat (of_nat (of_char x :: nat) :: byte) = unat (of_nat (of_char y :: nat) :: byte)"
      by simp
    then have "(of_char x :: nat) mod 256 = of_char y mod 256"
      by (simp only: unat_of_nat) simp
    then have "(of_char x :: nat) = of_char y"
      by (simp only: of_char_mod_256)
    then show "x = y" by simp
  qed
  then show "ascii p = ascii q \<Longrightarrow> p = q"
    unfolding ascii_def by (simp add: inj_map_eq_map)
qed

lemma toy_keystore: "keystore_contract toyEnv"
  unfolding keystore_contract_def
proof (intro allI impI conjI)
  fix data :: bytes and p :: string
  assume len: "length data = 64"
  then show "loadKeystore toyEnv (createKeystore toyEnv data p) p
               = Inr \<lparr>privateKey = data, rawPublicKey = drop 32 data\<rparr>"
    by (simp add: toyEnv_def toy_createKeystore_def toy_loadKeystore_def)
  fix p' assume "p' \<noteq> p"
  then have "ascii p \<noteq> ascii p'" using ascii_inj by blast
  with len show "loadKeystore toyEnv (createKeystore toyEnv data p) p' = Inl KeyMismatchError"
    by (simp add: toyEnv_def toy_createKeystore_def toy_loadKeystore_def)
qed

section \<open>What every construction path establishes\<close>

lemma fromString_Inr:
  assumes "fromString E s = Inr k"
  shows "\<exists>bs k0 t. fromBytes E bs = Inr k0 \<and> k = k0\<lparr>asStringRaw := Some t\<rparr>"
proof -
  consider (bare) "length s = 64 \<or> length s = 128"
    | (pre) "\<not> (length s = 64 \<or> length s = 128)" "length s = 96 \<and> prefix (ed25519PrivKeyPrefix E) s"
    | (bad) "\<not> (length s = 64 \<or> length s = 128)" "\<not> (length s = 96 \<and> prefix (ed25519PrivKeyPrefix E) s)"
    by blast
  then show ?thesis
  proof cases
    case bare
    with assms show ?thesis
      by (auto simp: fromString_def andThen_eq_Inr)
  next
    case pre
    with assms show ?thesis
      by (auto simp: fromString_def andThen_eq_Inr Let_def)
  next
    case bad
    with assms show ?thesis
      by (simp add: fromString_def)
  qed
qed

lemma toString_fields:
  "publicKey (snd (toString E raw k)) = publicKey k
   \<and> keyData (snd (toString E raw k)) = keyData k
   \<and> chainCode (snd (toString E raw k)) = chainCode k"
  by (simp add: toString_def Let_def split: option.splits)

lemma build_length:
  "build E c = Inr k \<Longrightarrow> length (keyData k) = 64"
proof (induction c arbitrary: k)
  case (FromBytes bs)
  then show ?case using fromBytes_Inr [of E bs k] by simp
next
  case (FromString s)
  then obtain bs k0 t where "fromBytes E bs = Inr k0" "k = k0\<lparr>asStringRaw := Some t\<rparr>"
    using fromString_Inr [of E s k] by auto
  then show ?case using fromBytes_Inr [of E bs k0] by simp
next
  case (FromMnemonic m p)
  then show ?case using fromMnemonic_Inr [of E m p k] by simp
next
  case (FromKeystore blob p)
  then obtain rp where "newKey E rp = Inr k"
    by (auto simp: fromKeystore_def andThen_eq_Inr)
  then show ?case using newKey_Inr [of E rp k] by blast
next
  case Generate
  then obtain bs where "fromBytes E bs = Inr k"
    by (auto simp: generate_def andThen_eq_Inr)
  then show ?case using fromBytes_Inr [of E bs k] by simp
next
  case (Derive c i)
  then obtain k0 where "derive E k0 i = Inr k"
    by (auto simp: andThen_eq_Inr)
  then show ?case using derive_Inr [of E k0 i k] by simp
next
  case (ToString c raw)
  then obtain k0 where "build E c = Inr k0" "k = snd (toString E raw k0)"
    by (auto simp: andThen_eq_Inr)
  then show ?case using ToString.IH [of k0] toString_fields [of E raw k0] by simp
qed

lemma build_publicKey:
  assumes "keystore_pair_contract E"
  shows "build E c = Inr k \<Longrightarrow> publicKeyFromBytes E (drop 32 (keyData k)) = Inr (publicKey k)"
proof (induction c arbitrary: k)
  case (FromBytes bs)
  then show ?case using fromBytes_Inr [of E bs k] by simp
next
  case (FromString s)
  then obtain bs k0 t where "fromBytes E bs = Inr k0" "k = k0\<lparr>asStringRaw := Some t\<rparr>"
    using fromString_Inr [of E s k] by auto
  then show ?case using fromBytes_Inr [of E bs k0] by simp
next
  case (FromMnemonic m p)
  then show ?case using fromMnemonic_Inr [of E m p k] by simp
next
  case (FromKeystore blob p)
  then obtain rp where rp: "loadKeystore E blob p = Inr rp" "newKey E rp = Inr k"
    by (auto simp: fromKeystore_def andThen_eq_Inr)
  from rp(1) assms have "rawPublicKey rp = drop 32 (privateKey rp)"
    unfolding keystore_pair_contract_def by blast
  then show ?case using newKey_Inr [OF rp(2)] by simp
next
  case Generate
  then obtain bs where "fromBytes E bs = Inr k"
    by (auto simp: generate_def andThen_eq_Inr)
  then show ?case using fromBytes_Inr [of E bs k] by simp
next
  case (Derive c i)
  then obtain k0 where "derive E k0 i = Inr k"
    by (auto simp: andThen_eq_Inr)
  then show ?case using derive_Inr [of E k0 i k] by simp
next
  case (ToString c raw)
  then obtain k0 where "build E c = Inr k0" "k = snd (toString E raw k0)"
    by (auto simp: andThen_eq_Inr)
  then show ?case using ToString.IH [of k0] toString_fields [of E raw k0] by simp
qed




text \<open>
  Claim C9. A key that any construction path returns holds exactly 64 bytes of key data,
  and the second half of them are the bytes its public key object was made from (for a
  key from a keystore, given that the loader returns such a pair). The private constructor
  rejects a private key of any other length with \<open>BadKeyError\<close>. \<open>toBytes\<close>, \<open>toString\<close>
  and \<open>derive\<close> read nothing of the key data beyond its first 32 bytes: on two keys that
  agree on those, and on the cache and the chain code, they give the same results.
\<close>

theorem keyData_is_64_bytes:
  assumes "keystore_pair_contract E"
  shows "(build E c = Inr k \<longrightarrow>
            length (keyData k) = 64 \<and> length (toBytes k) = 32
            \<and> publicKeyFromBytes E (drop 32 (keyData k)) = Inr (publicKey k))
       \<and> (length (privateKey rp) \<noteq> 64 \<longrightarrow> newKey E rp = Inl BadKeyError)
       \<and> (take 32 (keyData k1) = take 32 (keyData k2) \<and> asStringRaw k1 = asStringRaw k2
            \<and> chainCode k1 = chainCode k2 \<longrightarrow>
              toBytes k1 = toBytes k2
              \<and> fst (toString E raw k1) = fst (toString E raw k2)
              \<and> derive E k1 i = derive E k2 i)"
proof (intro conjI impI)
  assume b: "build E c = Inr k"
  then show len: "length (keyData k) = 64" by (rule build_length)
  then show "length (toBytes k) = 32" by (simp add: toBytes_def)
  from b show "publicKeyFromBytes E (drop 32 (keyData k)) = Inr (publicKey k)"
    by (rule build_publicKey [OF assms])
next
  assume "length (privateKey rp) \<noteq> 64"
  then show "newKey E rp = Inl BadKeyError"
    by (simp add: newKey_def secretKeyLength_def)
next
  assume same: "take 32 (keyData k1) = take 32 (keyData k2) \<and> asStringRaw k1 = asStringRaw k2
            \<and> chainCode k1 = chainCode k2"
  then show "toBytes k1 = toBytes k2" by (simp add: toBytes_def)
  from same show "fst (toString E raw k1) = fst (toString E raw k2)"
    by (simp add: toString_def Let_def split: option.splits)
  from same show "derive E k1 i = derive E k2 i"
    by (simp add: derive_def split: option.splits)
qed

theorem keyData_is_64_bytes_witness:
  "keystore_pair_contract toyEnv
   \<and> build toyEnv (FromBytes (replicate 32 0)) = Inr zeroSeedKey
   \<and> length (keyData zeroSeedKey) = 64
   \<and> length (privateKey \<lparr>privateKey = [1, 2, 3], rawPublicKey = replicate 32 0\<rparr>) \<noteq> 64
   \<and> newKey toyEnv \<lparr>privateKey = [1, 2, 3], rawPublicKey = replicate 32 0\<rparr> = Inl BadKeyError
   \<and> take 32 (keyData zeroSeedKey) = take 32 (keyData (zeroSeedKey\<lparr>keyData := replicate 64 0\<rparr>))
   \<and> toBytes zeroSeedKey = toBytes (zeroSeedKey\<lparr>keyData := replicate 64 0\<rparr>)"
proof -
  note inst = keyData_is_64_bytes [OF toy_keystore_pair,
      where c = "FromBytes (replicate 32 0)" and k = zeroSeedKey
        and rp = "\<lparr>privateKey = [1, 2, 3], rawPublicKey = replicate 32 0\<rparr>"
        and ?k1.0 = zeroSeedKey and ?k2.0 = "zeroSeedKey\<lparr>keyData := replicate 64 0\<rparr>"]
  have built: "build toyEnv (FromBytes (replicate 32 0)) = Inr zeroSeedKey"
    by (simp add: toy_zeroSeedKey)
  have short: "length (privateKey \<lparr>privateKey = [1, 2, 3], rawPublicKey = replicate 32 (0 :: byte)\<rparr>) \<noteq> 64"
    by simp
  have same: "take 32 (keyData zeroSeedKey) = take 32 (keyData (zeroSeedKey\<lparr>keyData := replicate 64 0\<rparr>))
      \<and> asStringRaw zeroSeedKey = asStringRaw (zeroSeedKey\<lparr>keyData := replicate 64 0\<rparr>)
      \<and> chainCode zeroSeedKey = chainCode (zeroSeedKey\<lparr>keyData := replicate 64 0\<rparr>)"
    by (simp add: zeroSeedKey_def)
  from inst built have "length (keyData zeroSeedKey) = 64" by blast
  moreover from inst short
  have "newKey toyEnv \<lparr>privateKey = [1, 2, 3], rawPublicKey = replicate 32 0\<rparr> = Inl BadKeyError"
    by blast
  moreover from inst same
  have "toBytes zeroSeedKey = toBytes (zeroSeedKey\<lparr>keyData := replicate 64 0\<rparr>)"
    by blast
  ultimately show ?thesis
    using toy_keystore_pair built short same by blast
qed

section \<open>String encoding\<close>

lemma toString_None:
  "asStringRaw k = None \<Longrightarrow>
     toString E raw k
       = ((if raw then [] else ed25519PrivKeyPrefix E) @ encodeHex (take 32 (keyData k)),
          k\<lparr>asStringRaw := Some (encodeHex (take 32 (keyData k)))\<rparr>)"
  by (simp add: toString_def Let_def)

lemma toString_Some:
  "asStringRaw k = Some s \<Longrightarrow>
     toString E raw k = ((if raw then [] else ed25519PrivKeyPrefix E) @ s, k)"
  by (simp add: toString_def)

lemma toString_prefix:
  "fst (toString E False k) = ed25519PrivKeyPrefix E @ fst (toString E True k)"
  by (cases "asStringRaw k") (simp_all add: toString_None toString_Some)

lemma toString_again:
  "toString E r2 (snd (toString E r1 k)) = (fst (toString E r2 k), snd (toString E r1 k))"
  by (cases "asStringRaw k") (simp_all add: toString_None toString_Some)

lemma build_cacheUnset:
  assumes "build E c = Inr k" and "cacheUnset c"
  shows "asStringRaw k = None"
proof (cases c)
  case (FromBytes bs)
  with assms show ?thesis using fromBytes_Inr [of E bs k] by simp
next
  case (FromString s)
  with assms show ?thesis by simp
next
  case (FromMnemonic m p)
  with assms show ?thesis using fromMnemonic_Inr [of E m p k] by simp
next
  case (FromKeystore blob p)
  with assms obtain rp where "newKey E rp = Inr k"
    by (auto simp: fromKeystore_def andThen_eq_Inr)
  then show ?thesis using newKey_Inr [of E rp k] by blast
next
  case Generate
  with assms obtain bs where "fromBytes E bs = Inr k"
    by (auto simp: generate_def andThen_eq_Inr)
  then show ?thesis using fromBytes_Inr [of E bs k] by simp
next
  case (Derive c' i)
  with assms obtain k0 where "derive E k0 i = Inr k"
    by (auto simp: andThen_eq_Inr)
  then show ?thesis using derive_Inr [of E k0 i k] by simp
next
  case (ToString c' raw)
  with assms show ?thesis by simp
qed




lemma toy_pairHexKey: "fromString toyEnv pairHex = Inr pairHexKey"
  by code_simp




text \<open>
  Claim C10. On every key, in every state of its cache, \<open>toString(false)\<close> is the prefix
  followed by \<open>toString(true)\<close>; a call of \<open>toString\<close> with either flag leaves the results
  of later calls with either flag as they were, and two calls in a row leave the key as the
  first did. The prefix has 32 characters where the constant has.
\<close>

theorem toString_flag_only_prefix:
  "fst (toString E False k) = ed25519PrivKeyPrefix E @ fst (toString E True k)
   \<and> fst (toString E r2 (snd (toString E r1 k))) = fst (toString E r2 k)
   \<and> snd (toString E r2 (snd (toString E r1 k))) = snd (toString E r1 k)
   \<and> snd (toString E True k) = snd (toString E False k)
   \<and> (prefix_contract E \<longrightarrow>
        length (fst (toString E False k)) = 32 + length (fst (toString E True k)))"
proof (intro conjI impI)
  show "fst (toString E False k) = ed25519PrivKeyPrefix E @ fst (toString E True k)"
    by (rule toString_prefix)
  show "fst (toString E r2 (snd (toString E r1 k))) = fst (toString E r2 k)"
    by (simp add: toString_again)
  show "snd (toString E r2 (snd (toString E r1 k))) = snd (toString E r1 k)"
    by (simp add: toString_again)
  show "snd (toString E True k) = snd (toString E False k)"
    by (cases "asStringRaw k") (simp_all add: toString_None toString_Some)
next
  assume "prefix_contract E"
  then show "length (fst (toString E False k)) = 32 + length (fst (toString E True k))"
    by (simp add: toString_prefix prefix_contract_def)
qed

theorem toString_flag_only_prefix_witness:
  "prefix_contract toyEnv
   \<and> fst (toString toyEnv False zeroSeedKey)
       = ''302e020100300506032b657004220420'' @ fst (toString toyEnv True zeroSeedKey)
   \<and> length (fst (toString toyEnv False zeroSeedKey))
       = 32 + length (fst (toString toyEnv True zeroSeedKey))"
  using toString_flag_only_prefix [of toyEnv zeroSeedKey] toy_prefix
  by (simp add: toyEnv_prefix)




section \<open>The string round trip\<close>

lemma fromString_pair_Inr:
  assumes "length s = 128" and "fromString E s = Inr k"
  shows "asStringRaw k = Some s"
proof -
  from assms obtain bs k0 where "fromBytes E bs = Inr k0" "k = k0\<lparr>asStringRaw := Some s\<rparr>"
    by (auto simp: fromString_def andThen_eq_Inr)
  then show ?thesis by simp
qed

lemma pair_string_no_roundtrip:
  assumes "prefix_contract E" and "length s = 128" and "fromString E s = Inr k"
  shows "fromString E (fst (toString E False k)) = Inl BadKeyError"
proof -
  have "fst (toString E False k) = ed25519PrivKeyPrefix E @ s"
    using fromString_pair_Inr [OF assms(2,3)] by (simp add: toString_Some)
  moreover have "length (ed25519PrivKeyPrefix E @ s) = 160"
    using assms(1,2) by (simp add: prefix_contract_def)
  ultimately show ?thesis by (simp add: fromString_other)
qed

text \<open>
  Claim C3 at the input where the code leaves it: the key made from a string of 128
  hexadecimal digits keeps all 128 in its cache, so \<open>toString()\<close> is the prefix followed
  by 128 digits, 160 characters, and \<open>fromString\<close> rejects that with \<open>BadKeyError\<close>.
\<close>

theorem pair_string_roundtrip_fails:
  "length pairHex = 128
   \<and> fromString toyEnv pairHex = Inr pairHexKey
   \<and> length (fst (toString toyEnv True pairHexKey)) = 128
   \<and> length (fst (toString toyEnv False pairHexKey)) = 160
   \<and> fromString toyEnv (fst (toString toyEnv False pairHexKey)) = Inl BadKeyError"
  by code_simp

section \<open>The keystore\<close>

lemma fromKeystore_toKeystore:
  assumes "keystore_contract E" and "publicKey_contract E" and "length (keyData k) = 64"
  shows "\<exists>pk. fromKeystore E (fst (toKeystore E k p)) p
           = Inr \<lparr>publicKey = pk, keyData = keyData k, asStringRaw = None, chainCode = None\<rparr>"
proof -
  have load: "loadKeystore E (createKeystore E (keyData k) p) p
      = Inr \<lparr>privateKey = keyData k, rawPublicKey = drop 32 (keyData k)\<rparr>"
    using assms(1,3) unfolding keystore_contract_def by blast
  have "length (drop 32 (keyData k)) = 32" using assms(3) by simp
  then obtain pk where "publicKeyFromBytes E (drop 32 (keyData k)) = Inr pk"
    using assms(2) unfolding publicKey_contract_def ok_iff by blast
  then show ?thesis
    using load assms(3)
    by (simp add: fromKeystore_def toKeystore_def newKey_def secretKeyLength_def andThen_Inr)
qed

lemma fromKeystore_wrong_passphrase:
  assumes "keystore_contract E" and "length (keyData k) = 64" and "p2 \<noteq> p"
  shows "fromKeystore E (fst (toKeystore E k p)) p2 = Inl KeyMismatchError"
proof -
  have "loadKeystore E (createKeystore E (keyData k) p) p2 = Inl KeyMismatchError"
    using assms unfolding keystore_contract_def by blast
  then show ?thesis
    by (simp add: fromKeystore_def toKeystore_def andThen_Inl)
qed

text \<open>
  Claim C7, as stated, fails: what \<open>toKeystore\<close> hands to the keystore encoder is the key
  data of 64 bytes, not the 32 bytes that \<open>toBytes\<close> returns.
\<close>

theorem toKeystore_encrypts_64_bytes:
  "fst (toKeystore toyEnv zeroSeedKey ''pw'') = createKeystore toyEnv (keyData zeroSeedKey) ''pw''
   \<and> length (keyData zeroSeedKey) = 64
   \<and> length (toBytes zeroSeedKey) = 32
   \<and> fst (toKeystore toyEnv zeroSeedKey ''pw'') \<noteq> createKeystore toyEnv (toBytes zeroSeedKey) ''pw''"
  by code_simp

text \<open>
  Claim C7, amended. \<open>toKeystore\<close> hands the whole 64 bytes of key data, the seed followed
  by the public key, to the keystore encoder and leaves the key as it was. With a keystore
  codec that gives the encrypted bytes back under the passphrase that made the blob, and
  \<open>KeyMismatchError\<close> under any other, \<open>fromKeystore\<close> of the blob under the same
  passphrase is a key with the same bytes and no chain code, and under another passphrase
  it fails with \<open>KeyMismatchError\<close>.
\<close>

theorem keystore_roundtrip:
  assumes "keystore_contract E" and "publicKey_contract E"
  shows "toKeystore E k p = (createKeystore E (keyData k) p, k)
       \<and> (build E c = Inr k \<longrightarrow>
            length (keyData k) = 64
            \<and> (\<exists>k'. fromKeystore E (fst (toKeystore E k p)) p = Inr k'
                  \<and> toBytes k' = toBytes k \<and> keyData k' = keyData k \<and> chainCode k' = None))
       \<and> (build E c = Inr k \<and> p2 \<noteq> p \<longrightarrow>
            fromKeystore E (fst (toKeystore E k p)) p2 = Inl KeyMismatchError)"
proof (intro conjI impI)
  show "toKeystore E k p = (createKeystore E (keyData k) p, k)"
    by (simp add: toKeystore_def)
next
  assume "build E c = Inr k"
  then show len: "length (keyData k) = 64" by (rule build_length)
  from fromKeystore_toKeystore [OF assms len, of p]
  show "\<exists>k'. fromKeystore E (fst (toKeystore E k p)) p = Inr k'
          \<and> toBytes k' = toBytes k \<and> keyData k' = keyData k \<and> chainCode k' = None"
    by (auto simp: toBytes_def)
next
  assume a: "build E c = Inr k \<and> p2 \<noteq> p"
  then have "length (keyData k) = 64" using build_length [of E c k] by simp
  with a show "fromKeystore E (fst (toKeystore E k p)) p2 = Inl KeyMismatchError"
    using fromKeystore_wrong_passphrase [OF assms(1), of k p2 p] by simp
qed

theorem keystore_roundtrip_witness:
  "keystore_contract toyEnv \<and> publicKey_contract toyEnv
   \<and> build toyEnv (FromBytes (replicate 32 0)) = Inr zeroSeedKey
   \<and> ''pw2'' \<noteq> ''pw''
   \<and> (\<exists>k'. fromKeystore toyEnv (fst (toKeystore toyEnv zeroSeedKey ''pw'')) ''pw'' = Inr k'
         \<and> toBytes k' = toBytes zeroSeedKey)
   \<and> fromKeystore toyEnv (fst (toKeystore toyEnv zeroSeedKey ''pw'')) ''pw2''
       = Inl KeyMismatchError"
proof -
  note inst = keystore_roundtrip [OF toy_keystore toy_publicKey,
      where c = "FromBytes (replicate 32 0)" and k = zeroSeedKey and p = "''pw''"
        and ?p2.0 = "''pw2''"]
  have built: "build toyEnv (FromBytes (replicate 32 0)) = Inr zeroSeedKey"
    by (simp add: toy_zeroSeedKey)
  have differ: "''pw2'' \<noteq> ''pw''"
    by simp
  from inst built
  have "\<exists>k'. fromKeystore toyEnv (fst (toKeystore toyEnv zeroSeedKey ''pw'')) ''pw'' = Inr k'
         \<and> toBytes k' = toBytes zeroSeedKey"
    by blast
  moreover from inst built differ
  have "fromKeystore toyEnv (fst (toKeystore toyEnv zeroSeedKey ''pw'')) ''pw2''
       = Inl KeyMismatchError"
    by blast
  ultimately show ?thesis
    using toy_keystore toy_publicKey built differ by blast
qed

section \<open>Copies and views\<close>

lemma contents_append:
  "allocated st a \<Longrightarrow> contents (st @ extra) a = contents st a"
  by (simp add: contents_def allocated_def nth_append)

lemma contents_setByte_other:
  "buffer a \<noteq> buffer r \<Longrightarrow> contents (setByte st r i v) a = contents st a"
  by (simp add: contents_def setByte_def)

lemma contents_writeAll_other:
  "buffer a \<noteq> buffer r \<Longrightarrow> contents (writeAll st r ws) a = contents st a"
proof (induction ws arbitrary: st)
  case Nil
  show ?case by (simp add: writeAll_def)
next
  case (Cons w ws)
  obtain i v where w: "w = (i, v)" by (cases w)
  have "writeAll st r (w # ws) = writeAll (setByte st r i v) r ws"
    by (simp add: writeAll_def w)
  then show ?case
    using Cons.IH [OF Cons.prems, of "setByte st r i v"] Cons.prems
    by (simp add: contents_setByte_other)
qed

lemma slice_array_eq:
  "slice_array st a b e
     = (st @ [take (min e (byteLength a) - min b (byteLength a))
                (drop (min b (byteLength a)) (contents st a))],
        \<lparr>buffer = length st, byteOffset = 0,
         byteLength = length (take (min e (byteLength a) - min b (byteLength a))
                               (drop (min b (byteLength a)) (contents st a)))\<rparr>)"
  by (simp add: slice_array_def Let_def)

lemma slice_array_buffer: "buffer (snd (slice_array st a b e)) = length st"
  by (simp add: slice_array_eq)

lemma contents_new_buffer:
  "contents (st @ [copy]) \<lparr>buffer = length st, byteOffset = 0, byteLength = length copy\<rparr> = copy"
  by (simp add: contents_def)

lemma slice_array_contents:
  "contents (fst (slice_array st a b e)) (snd (slice_array st a b e))
     = take (min e (byteLength a) - min b (byteLength a))
         (drop (min b (byteLength a)) (contents st a))"
  unfolding slice_array_eq fst_conv snd_conv by (rule contents_new_buffer)

lemma slice_array_store:
  "fst (slice_array st a b e)
     = st @ [contents (fst (slice_array st a b e)) (snd (slice_array st a b e))]"
  unfolding slice_array_contents by (simp add: slice_array_eq)

lemma subarray_shares_buffer: "buffer (subarray a b e) = buffer a"
  by (simp add: subarray_def Let_def)

lemma length_contents_le: "length (contents st a) \<le> byteLength a"
  by (simp add: contents_def)

lemma take_min_32:
  assumes "length xs \<le> n"
  shows "take (min 32 n) xs = take 32 xs"
proof (cases "32 \<le> n")
  case True
  then show ?thesis by (simp add: min_def)
next
  case False
  with assms show ?thesis by (simp add: min_def)
qed

lemma toBytes_store_contents:
  "contents (fst (toBytes_store st this)) (snd (toBytes_store st this))
     = toBytes (keyOf st this)"
proof -
  have "contents (fst (toBytes_store st this)) (snd (toBytes_store st this))
        = take (min 32 (byteLength (keyDataField this))) (contents st (keyDataField this))"
    unfolding toBytes_store_def slice_array_contents by simp
  also have "\<dots> = take 32 (contents st (keyDataField this))"
    by (rule take_min_32) (rule length_contents_le)
  finally show ?thesis
    by (simp add: toBytes_def keyOf_def)
qed

lemma keyOf_unchanged:
  assumes "wellFormed st this"
  shows "keyOf (writeAll (fst (toBytes_store st this)) (snd (toBytes_store st this)) ws) this
         = keyOf st this"
proof -
  let ?st1 = "fst (toBytes_store st this)" and ?r = "snd (toBytes_store st this)"
  have st1: "?st1 = st @ [contents ?st1 ?r]"
    unfolding toBytes_store_def by (rule slice_array_store)
  have r: "buffer ?r = length st"
    unfolding toBytes_store_def by (rule slice_array_buffer)
  have keep: "contents (writeAll ?st1 ?r ws) a = contents st a" if "allocated st a" for a
  proof -
    from that r have "buffer a \<noteq> buffer ?r" by (simp add: allocated_def)
    then have "contents (writeAll ?st1 ?r ws) a = contents ?st1 a"
      by (rule contents_writeAll_other)
    also have "\<dots> = contents st a"
      using contents_append [OF that, of "[contents ?st1 ?r]"] st1 by metis
    finally show ?thesis .
  qed
  have kd: "contents (writeAll ?st1 ?r ws) (keyDataField this) = contents st (keyDataField this)"
    using assms by (simp add: keep wellFormed_def)
  have cc: "map_option (contents (writeAll ?st1 ?r ws)) (chainCodeField this)
            = map_option (contents st) (chainCodeField this)"
    using assms by (cases "chainCodeField this") (simp_all add: keep wellFormed_def)
  show ?thesis
    unfolding keyOf_def using kd cc by simp
qed

text \<open>
  Claim C8. \<open>toBytes\<close> returns an array on a buffer of its own that holds the 32-byte seed:
  the buffer is not one of those allocated before the call, and whatever the caller then
  writes into the returned array, the key object stands for the same key as before, so
  \<open>toBytes\<close>, \<open>toString\<close> and \<open>derive\<close> on it give what they gave before, also
  \<open>toBytes\<close> run again in the store after the writes.
\<close>

theorem toBytes_returns_fresh_copy:
  assumes "wellFormed st this"
  shows "contents (fst (toBytes_store st this)) (snd (toBytes_store st this))
           = toBytes (keyOf st this)
       \<and> \<not> allocated st (snd (toBytes_store st this))
       \<and> buffer (snd (toBytes_store st this)) \<noteq> buffer (keyDataField this)
       \<and> keyOf (writeAll (fst (toBytes_store st this)) (snd (toBytes_store st this)) ws) this
           = keyOf st this
       \<and> toBytes (keyOf (writeAll (fst (toBytes_store st this)) (snd (toBytes_store st this)) ws) this)
           = toBytes (keyOf st this)
       \<and> toString E raw
           (keyOf (writeAll (fst (toBytes_store st this)) (snd (toBytes_store st this)) ws) this)
           = toString E raw (keyOf st this)
       \<and> derive E
           (keyOf (writeAll (fst (toBytes_store st this)) (snd (toBytes_store st this)) ws) this) i
           = derive E (keyOf st this) i
       \<and> contents
           (fst (toBytes_store
                  (writeAll (fst (toBytes_store st this)) (snd (toBytes_store st this)) ws) this))
           (snd (toBytes_store
                  (writeAll (fst (toBytes_store st this)) (snd (toBytes_store st this)) ws) this))
           = toBytes (keyOf st this)"
proof -
  let ?r = "snd (toBytes_store st this)"
  have r: "buffer ?r = length st"
    unfolding toBytes_store_def by (rule slice_array_buffer)
  have fresh: "\<not> allocated st ?r"
    using r by (simp add: allocated_def)
  have apart: "buffer ?r \<noteq> buffer (keyDataField this)"
    using r assms by (simp add: wellFormed_def allocated_def)
  note same = keyOf_unchanged [OF assms, of ws]
  show ?thesis
    using fresh apart same toBytes_store_contents [of st this]
      toBytes_store_contents
        [of "writeAll (fst (toBytes_store st this)) (snd (toBytes_store st this)) ws" this]
    by simp
qed

theorem toBytes_returns_fresh_copy_witness:
  "wellFormed oneBufferStore oneBufferKey
   \<and> contents (fst (toBytes_store oneBufferStore oneBufferKey))
        (snd (toBytes_store oneBufferStore oneBufferKey)) = replicate 32 1
   \<and> contents (writeAll (fst (toBytes_store oneBufferStore oneBufferKey))
                 (snd (toBytes_store oneBufferStore oneBufferKey)) [(0, 255)])
        (snd (toBytes_store oneBufferStore oneBufferKey)) = 255 # replicate 31 1
   \<and> toBytes (keyOf (writeAll (fst (toBytes_store oneBufferStore oneBufferKey))
                       (snd (toBytes_store oneBufferStore oneBufferKey)) [(0, 255)])
                oneBufferKey) = replicate 32 1"
proof -
  have wf: "wellFormed oneBufferStore oneBufferKey"
    by code_simp
  note inst = toBytes_returns_fresh_copy [OF wf, where ws = "[(0, 255)]"]
  have seed: "toBytes (keyOf oneBufferStore oneBufferKey) = replicate 32 1"
    by code_simp
  have written: "contents (writeAll (fst (toBytes_store oneBufferStore oneBufferKey))
                 (snd (toBytes_store oneBufferStore oneBufferKey)) [(0, 255)])
        (snd (toBytes_store oneBufferStore oneBufferKey)) = 255 # replicate 31 1"
    by code_simp
  from inst seed
  have "contents (fst (toBytes_store oneBufferStore oneBufferKey))
        (snd (toBytes_store oneBufferStore oneBufferKey)) = replicate 32 1"
    by simp
  moreover from inst seed
  have "toBytes (keyOf (writeAll (fst (toBytes_store oneBufferStore oneBufferKey))
                       (snd (toBytes_store oneBufferStore oneBufferKey)) [(0, 255)])
                oneBufferKey) = replicate 32 1"
    by simp
  ultimately show ?thesis
    using wf written by blast
qed

text \<open>
  For contrast: a view made by \<open>subarray\<close> shares the buffer, and a write through it
  shows in the array it was taken from.
\<close>

lemma subarray_write_shows:
  "contents (setByte oneBufferStore (subarray (keyDataField oneBufferKey) 0 32) 0 255)
     (keyDataField oneBufferKey)
   = 255 # replicate 31 1 @ replicate 32 2"
  by code_simp

section \<open>The round trips that hold\<close>

lemma fromBytes_toBytes:
  assumes "nacl_contract E" and "publicKey_contract E" and "length (keyData k) = 64"
  shows "\<exists>k1. fromBytes E (toBytes k) = Inr k1 \<and> toBytes k1 = toBytes k"
proof -
  have len: "length (toBytes k) = 32" using assms(3) by (simp add: toBytes_def)
  from fromBytes_32 [OF assms(1,2) len] obtain k1 where
    k1: "fromBytes E (toBytes k) = Inr k1"
    and kd: "keyData k1 = toBytes k @ edPublicKey E (toBytes k)"
    by auto
  from kd len have "toBytes k1 = toBytes k" by (simp add: toBytes_def [of k1])
  with k1 show ?thesis by blast
qed

lemma cacheGood_None: "asStringRaw k = None \<Longrightarrow> cacheGood E k"
  by (simp add: cacheGood_def)

lemma cacheGood_decoded:
  assumes "length s = 64" and "decodeHex E s = Inr bs" and "fromBytes E bs = Inr k0"
  shows "cacheGood E (k0\<lparr>asStringRaw := Some s\<rparr>)"
  using assms by (simp add: cacheGood_def toBytes_def)

lemma cacheGood_toString:
  assumes "nacl_contract E" and "publicKey_contract E" and "length (keyData k) = 64"
    and "cacheGood E k"
  shows "cacheGood E (snd (toString E raw k))"
proof (cases "asStringRaw k")
  case None
  from fromBytes_toBytes [OF assms(1-3)] obtain k1 where
    k1: "fromBytes E (toBytes k) = Inr k1" "toBytes k1 = toBytes k" by blast
  have "length (encodeHex (toBytes k)) = 64"
    using assms(3) by (simp add: length_encodeHex toBytes_def)
  then show ?thesis
    using None k1 by (simp add: toString_None cacheGood_def decodeHex_encodeHex toBytes_def)
next
  case (Some s)
  with assms(4) show ?thesis by (simp add: toString_Some)
qed

lemma build_cacheGood:
  assumes "nacl_contract E" and "publicKey_contract E"
  shows "build E c = Inr k \<Longrightarrow> pairStringFree c \<Longrightarrow> cacheGood E k"
proof (induction c arbitrary: k)
  case (FromString s)
  consider (bare) "length s = 64"
    | (pre) "length s = 96" "prefix (ed25519PrivKeyPrefix E) s"
    | (bad) "length s \<noteq> 64" "\<not> (length s = 96 \<and> prefix (ed25519PrivKeyPrefix E) s)"
    by blast
  then show ?case
  proof cases
    case bare
    with FromString.prems obtain bs k0 where
      "decodeHex E s = Inr bs" "fromBytes E bs = Inr k0" "k = k0\<lparr>asStringRaw := Some s\<rparr>"
      by (auto simp: fromString_def andThen_eq_Inr)
    with bare show ?thesis by (simp add: cacheGood_decoded)
  next
    case pre
    with FromString.prems obtain bs k0 where
      "decodeHex E (drop 32 s) = Inr bs" "fromBytes E bs = Inr k0"
      "k = k0\<lparr>asStringRaw := Some (drop 32 s)\<rparr>"
      by (auto simp: fromString_def andThen_eq_Inr Let_def)
    with pre(1) show ?thesis by (simp add: cacheGood_decoded)
  next
    case bad
    with FromString.prems show ?thesis by (auto simp: fromString_def split: if_splits)
  qed
next
  case (ToString c raw)
  then obtain k0 where k0: "build E c = Inr k0" "k = snd (toString E raw k0)"
    by (auto simp: andThen_eq_Inr)
  from ToString.prems(2) have "pairStringFree c" by simp
  from ToString.IH [OF k0(1) this] build_length [OF k0(1)] k0(2)
  show ?case by (simp add: cacheGood_toString [OF assms])
next
  case (FromBytes bs)
  then show ?case using build_cacheUnset [of E "FromBytes bs" k] by (simp add: cacheGood_None)
next
  case (FromMnemonic m p)
  then show ?case using build_cacheUnset [of E "FromMnemonic m p" k] by (simp add: cacheGood_None)
next
  case (FromKeystore blob p)
  then show ?case using build_cacheUnset [of E "FromKeystore blob p" k] by (simp add: cacheGood_None)
next
  case Generate
  then show ?case using build_cacheUnset [of E Generate k] by (simp add: cacheGood_None)
next
  case (Derive c i)
  then show ?case using build_cacheUnset [of E "Derive c i" k] by (simp add: cacheGood_None)
qed

lemma fromString_toString_cacheGood:
  assumes "nacl_contract E" and "publicKey_contract E" and "prefix_contract E"
    and "length (keyData k) = 64" and "cacheGood E k"
  shows "\<exists>k2. fromString E (fst (toString E False k)) = Inr k2 \<and> toBytes k2 = toBytes k"
proof -
  let ?k' = "snd (toString E False k)"
  have good: "cacheGood E ?k'"
    by (rule cacheGood_toString [OF assms(1,2,4,5)])
  obtain s where s: "asStringRaw ?k' = Some s"
    by (cases "asStringRaw k") (simp_all add: toString_None toString_Some)
  have str: "fst (toString E False k) = ed25519PrivKeyPrefix E @ s"
    using s by (cases "asStringRaw k") (simp_all add: toString_None toString_Some)
  from good s obtain bs k0 where len: "length s = 64" and dec: "decodeHex E s = Inr bs"
    and k0: "fromBytes E bs = Inr k0" and same: "toBytes k0 = toBytes ?k'"
    by (auto simp: cacheGood_def split: sum.splits)
  have pl: "length (ed25519PrivKeyPrefix E) = 32"
    using assms(3) by (simp add: prefix_contract_def)
  have "fromString E (ed25519PrivKeyPrefix E @ s) = Inr (k0\<lparr>asStringRaw := Some s\<rparr>)"
    using pl len dec k0 by (simp add: fromString_def andThen_Inr Let_def)
  moreover have "toBytes (k0\<lparr>asStringRaw := Some s\<rparr>) = toBytes k"
    using same toString_fields [of E False k] by (simp add: toBytes_def)
  ultimately show ?thesis
    using str by simp
qed

text \<open>
  Both round trips of the spec hold for every key on whose path no string of 128 digits
  was given to \<open>fromString\<close>; the round trip through bytes holds for every key.
\<close>

lemma roundtrip_without_pair_string:
  assumes "nacl_contract E" and "publicKey_contract E" and "prefix_contract E"
    and "build E c = Inr k"
  shows "(\<exists>k1. fromBytes E (toBytes k) = Inr k1 \<and> toBytes k1 = toBytes k)
       \<and> (pairStringFree c \<longrightarrow>
            (\<exists>k2. fromString E (fst (toString E False k)) = Inr k2 \<and> toBytes k2 = toBytes k))"
  using fromBytes_toBytes [OF assms(1,2) build_length [OF assms(4)]]
    fromString_toString_cacheGood [OF assms(1-3) build_length [OF assms(4)]]
    build_cacheGood [OF assms(1,2,4)]
  by blast

end
